theory Spec2Isabelle
  imports Main "HOL-Library.Multiset" "HOL-Library.AList"
begin

section \<open>JavaScript values, errors and the host's objects\<close>

text \<open>
  The table view of the repository (\<^verbatim>\<open>CellCache\<close>, \<^verbatim>\<open>ViewRow\<close>,
  \<^verbatim>\<open>TableView\<close>) is embedded with explicit state passing. A thrown exception is
  the value \<open>Inl e\<close>; numbers are integers (the scenarios of the specification use whole
  pixels); an object that the code shares and mutates (a pooled cell wrapper) lives in a
  store and is named by its address.
\<close>

datatype js_error = TypeError | NotFoundError

definition bindE :: "js_error + 'a \<Rightarrow> ('a \<Rightarrow> js_error + 'b) \<Rightarrow> js_error + 'b" where
  "bindE m f = (case m of Inl e \<Rightarrow> Inl e | Inr x \<Rightarrow> f x)"

text \<open>\<^verbatim>\<open>ICell\<close>: a DOM element, the template kind and the template's render state. The
  element and the template data become \<^verbatim>\<open>null\<close> (\<open>None\<close>) in
  \<^verbatim>\<open>garbageCollect\<close>; a template kind may be \<^verbatim>\<open>undefined\<close> (\<open>None\<close>), see
  the getter \<^verbatim>\<open>ViewRow.templateId\<close>.\<close>

record ICell =
  element :: "nat option"
  templateId :: "string option"
  templateData :: "nat option"

text \<open>The renderer of the table context, an external collaborator. \<^verbatim>\<open>getTemplateId\<close> is
  optional (the code tests for it); what \<^verbatim>\<open>renderTemplate\<close> returns is opaque, a
  function of the template kind and of the content element it is given. Each call of a
  hook is recorded in the trace of the state.\<close>

record Renderer =
  getTemplateId :: "(nat \<Rightarrow> string) option"
  renderTemplate :: "string option \<Rightarrow> nat \<Rightarrow> nat"

datatype event =
    RenderTemplate "string option" nat
  | DisposeTemplate string "nat option"
  | ConsoleWarn string
  | RowRender string
  | ControllerMouseDown nat
  | ControllerMouseUp nat
  | ControllerClick nat nat
  | ControllerTap nat

text \<open>The state the cell cache works on: the renderer of its context, the document
  (elements are numbers, handed out by \<^verbatim>\<open>document.createElement\<close>; each has a tag, a
  class name, a parent, its children in order and the expando property
  \<^verbatim>\<open>TableView.BINDING\<close>), the store of cell wrappers, the field \<^verbatim>\<open>_cache\<close> of the
  cell cache (a JavaScript object used as a dictionary from template kind to an array of
  wrappers, held as an association list in insertion order; \<open>None\<close> once
  \<^verbatim>\<open>dispose\<close> has set it to \<^verbatim>\<open>null\<close>), and the trace of calls to the outside.\<close>

record World =
  renderer :: Renderer
  nextId :: nat
  tagName :: "nat \<Rightarrow> string"
  className :: "nat \<Rightarrow> string"
  parentElement :: "nat \<Rightarrow> nat option"
  childNodes :: "nat \<Rightarrow> nat list"
  binding :: "nat \<Rightarrow> string option"
  cells :: "nat \<Rightarrow> ICell"
  nextCell :: nat
  cache' :: "(string \<times> nat list) list option"
  trace :: "event list"

subsection \<open>The DOM operations the code calls\<close>


definition detach :: "nat \<Rightarrow> 'a World_scheme \<Rightarrow> 'a World_scheme" where
  "detach e s =
     (case parentElement s e of
        None \<Rightarrow> s
      | Some p \<Rightarrow> s\<lparr>parentElement := (parentElement s)(e := None),
                     childNodes := (childNodes s)(p := removeAll e (childNodes s p))\<rparr>)"

definition appendChild :: "nat \<Rightarrow> nat \<Rightarrow> 'a World_scheme \<Rightarrow> 'a World_scheme" where
  "appendChild c e s =
     (let s1 = detach e s
      in s1\<lparr>parentElement := (parentElement s1)(e := Some c),
            childNodes := (childNodes s1)(c := childNodes s1 c @ [e])\<rparr>)"


definition removeChild :: "nat \<Rightarrow> nat \<Rightarrow> 'a World_scheme \<Rightarrow> js_error + 'a World_scheme" where
  "removeChild p e s =
     (if parentElement s e \<noteq> Some p then Inl NotFoundError else Inr (detach e s))"

text \<open>\<^verbatim>\<open>removeFromParent\<close>: the body is inside \<^verbatim>\<open>try\<close> and the handler is empty, so a
  \<^verbatim>\<open>null\<close> element, a missing parent and a failing \<^verbatim>\<open>removeChild\<close> all leave the
  state as it is.\<close>

definition removeFromParent :: "nat option \<Rightarrow> 'a World_scheme \<Rightarrow> 'a World_scheme" where
  "removeFromParent el s =
     (case el of
        None \<Rightarrow> s
      | Some e \<Rightarrow>
          (case parentElement s e of
             None \<Rightarrow> s
           | Some p \<Rightarrow> (case removeChild p e s of Inl err \<Rightarrow> s | Inr s' \<Rightarrow> s')))"

section \<open>The cell cache\<close>




text \<open>Writing an array back after \<^verbatim>\<open>pop\<close> or \<^verbatim>\<open>push\<close> changed it in place.\<close>

definition set_pool :: "string \<Rightarrow> nat list \<Rightarrow> 'a World_scheme \<Rightarrow> 'a World_scheme" where
  "set_pool k pool s = s\<lparr>cache' := map_option (AList.update k pool) (cache' s)\<rparr>"







definition pool_entries :: "(string \<times> nat list) list \<Rightarrow> (string \<times> nat) list" where
  "pool_entries m = concat (map (\<lambda>kp. map (Pair (fst kp)) (snd kp)) m)"

section \<open>Clients of the cell cache\<close>









section \<open>The view row\<close>

text \<open>\<^verbatim>\<open>Model.Row\<close> is an external collaborator: its identity, its pixel height, its
  traits and the element it stands for.\<close>

record Row =
  rowId :: string
  getHeight :: nat
  getAllTraits :: "string list"
  getElement :: nat

text \<open>\<^verbatim>\<open>ViewRow\<close>. The fields \<^verbatim>\<open>id\<close>, \<^verbatim>\<open>top\<close>, \<^verbatim>\<open>_styles\<close> and
  \<^verbatim>\<open>_templateId\<close> are written \<open>id'\<close>, \<open>top'\<close>, \<open>styles'\<close> and \<open>templateId'\<close>;
  \<open>row\<close> is the address of the bound cell wrapper, \<open>None\<close> for \<^verbatim>\<open>null\<close>;
  \<open>styles'\<close> lists the keys that are set to \<^verbatim>\<open>true\<close>.\<close>

record ViewRow =
  model :: "Row option"
  id' :: string
  row :: "nat option"
  top' :: int
  height :: nat
  styles' :: "string list"
  templateId' :: "string option"

text \<open>The constructor, \<^verbatim>\<open>constructor(private context: IViewContext, privatemodel: Model.Row)\<close>.
  Only \<^verbatim>\<open>context\<close> is a parameter property; the second parameter is an ordinary
  parameter with the name \<^verbatim>\<open>privatemodel\<close>, and no statement assigns
  \<^verbatim>\<open>this.model\<close>. The first statement of the body, \<^verbatim>\<open>this.id = this.model.id\<close>,
  reads the field as it is at that moment.\<close>

definition ViewRow_model_at_entry :: "'a World_scheme \<Rightarrow> Row \<Rightarrow> Row option" where
  "ViewRow_model_at_entry ctx privatemodel = None"

definition ViewRow_new :: "'a World_scheme \<Rightarrow> Row \<Rightarrow> js_error + ViewRow" where
  "ViewRow_new ctx privatemodel =
     (case ViewRow_model_at_entry ctx privatemodel of
        None \<Rightarrow> Inl TypeError
      | Some m \<Rightarrow>
          Inr \<lparr>model = Some m, id' = rowId m, row = None, top' = 0, height = getHeight m,
               styles' = getAllTraits m, templateId' = None\<rparr>)"

text \<open>The getter \<^verbatim>\<open>element\<close>: \<^verbatim>\<open>this.row && this.row.element\<close>.\<close>

definition ViewRow_element :: "ViewRow \<Rightarrow> 'a World_scheme \<Rightarrow> nat option" where
  "ViewRow_element vr s = (case row vr of None \<Rightarrow> None | Some c \<Rightarrow> element (cells s c))"

text \<open>The getter \<^verbatim>\<open>templateId\<close>: the cached kind when it is truthy (a string that is
  not empty); else the renderer is asked, if it has \<^verbatim>\<open>getTemplateId\<close>, and the answer
  is cached.\<close>

definition truthy :: "string option \<Rightarrow> bool" where
  "truthy t = (case t of None \<Rightarrow> False | Some k \<Rightarrow> k \<noteq> [])"





definition ViewRow_dispose :: "ViewRow \<Rightarrow> ViewRow" where
  "ViewRow_dispose vr = vr\<lparr>row := None, model := None\<rparr>"

section \<open>The height index\<close>

text \<open>Modelled from the spec: the class \<^verbatim>\<open>HeightMap\<close>, which \<^verbatim>\<open>TableView\<close> extends and
  whose file (\<^verbatim>\<open>tableViewModel\<close>) is not among the sources. The index is the list of
  the view rows in row order; a row's cumulative start is its field \<open>top'\<close>, which the
  index keeps equal to the sum of the heights of the rows before it, through insertion
  and removal at any position.\<close>

fun retop :: "int \<Rightarrow> ViewRow list \<Rightarrow> ViewRow list" where
  "retop t [] = []"
| "retop t (r # rs) = r\<lparr>top' := t\<rparr> # retop (t + int (height r)) rs"

definition hm_insert :: "nat \<Rightarrow> ViewRow \<Rightarrow> ViewRow list \<Rightarrow> ViewRow list" where
  "hm_insert p r hm = retop 0 (take p hm @ r # drop p hm)"

definition hm_remove :: "nat \<Rightarrow> ViewRow list \<Rightarrow> ViewRow list" where
  "hm_remove p hm = retop 0 (take p hm @ drop (Suc p) hm)"

datatype hm_op = InsertRow nat ViewRow | RemoveRow nat

fun hm_step :: "ViewRow list \<Rightarrow> hm_op \<Rightarrow> ViewRow list" where
  "hm_step hm (InsertRow p r) = hm_insert p r hm"
| "hm_step hm (RemoveRow p) = hm_remove p hm"

definition hm_run :: "hm_op list \<Rightarrow> ViewRow list" where
  "hm_run ops = foldl hm_step [] ops"

text \<open>Modelled from the spec: \<open>indexAt\<close> is the largest row index whose cumulative start
  is at most the offset, \<open>indexAfter\<close> the first row index whose cumulative start is
  greater than the offset. The spec does not say what they return when no row
  qualifies; here \<open>indexAt\<close> is then \<open>-1\<close> (one before the first row) and
  \<open>indexAfter\<close> the number of rows (one past the last row).\<close>

definition indexAt :: "ViewRow list \<Rightarrow> int \<Rightarrow> int" where
  "indexAt hm off =
     (case filter (\<lambda>i. top' (hm ! i) \<le> off) [0..<length hm] of
        [] \<Rightarrow> - 1
      | i # js \<Rightarrow> int (last (i # js)))"

definition indexAfter :: "ViewRow list \<Rightarrow> int \<Rightarrow> int" where
  "indexAfter hm off =
     (case filter (\<lambda>i. off < top' (hm ! i)) [0..<length hm] of
        [] \<Rightarrow> int (length hm)
      | i # js \<Rightarrow> int i)"

text \<open>Modelled from the spec: \<open>itemAtIndex\<close> is the row at an index, \<^verbatim>\<open>undefined\<close>
  outside the table (its callers in \<^verbatim>\<open>TableView\<close> test the result).\<close>

definition itemAtIndex :: "ViewRow list \<Rightarrow> int \<Rightarrow> ViewRow option" where
  "itemAtIndex hm i = (if 0 \<le> i \<and> i < int (length hm) then Some (hm ! nat i) else None)"

text \<open>An offset is strictly inside the span of a row when it is past the row's start and
  before its end.\<close>

definition inside_span :: "ViewRow list \<Rightarrow> int \<Rightarrow> bool" where
  "inside_span hm off = list_ex (\<lambda>r. top' r < off \<and> off < top' r + int (height r)) hm"

section \<open>The table view\<close>

text \<open>Printing an integer, as the string concatenation \<^verbatim>\<open>n + 'px'\<close> does for a whole
  number.\<close>

definition digit :: "nat \<Rightarrow> char" where
  "digit d = ''0123456789'' ! d"

fun decimal :: "nat \<Rightarrow> string" where
  "decimal n = (if 10 \<le> n then decimal (n div 10) @ [digit (n mod 10)] else [digit n])"

declare decimal.simps [simp del]

definition number_text :: "int \<Rightarrow> string" where
  "number_text i = (if 0 \<le> i then decimal (nat i) else CHR ''-'' # decimal (nat (- i)))"

text \<open>The state of a \<^verbatim>\<open>TableView\<close>: the world of its context, the rows of the height
  index it extends, the row container and its style property \<^verbatim>\<open>top\<close>, the last render
  window, and the fields the input handlers use. Whether the controller has the
  optional methods \<^verbatim>\<open>onMouseDown\<close> and \<^verbatim>\<open>onMouseUp\<close> is a field too.\<close>

record TableView = World +
  heightMap :: "ViewRow list"
  rowsContainer :: nat
  rowsContainerTop :: "string option"
  lastRenderTop :: int
  lastRenderHeight :: int
  lastPointerType :: "string option"
  lastClickTimeStamp :: int
  didJustPressContextMenuKey :: bool
  controllerOnMouseDown :: bool
  controllerOnMouseUp :: bool








text \<open>The rows that are in the DOM: a row with a wrapper whose element is a child of the
  row container.\<close>

definition inDOM :: "TableView \<Rightarrow> nat \<Rightarrow> bool" where
  "inDOM s i =
     (i < length (heightMap s) \<and>
      (case ViewRow_element (heightMap s ! i) s of
         None \<Rightarrow> False
       | Some e \<Rightarrow> parentElement s e = Some (rowsContainer s)))"

definition rowsInDOM :: "TableView \<Rightarrow> nat list" where
  "rowsInDOM s = filter (inDOM s) [0..<length (heightMap s)]"

subsection \<open>The input handlers\<close>

text \<open>What the handlers read of an event, of the platform and of the clock. A view cell
  stands for an element of the model (\<^verbatim>\<open>item.model.getElement()\<close>). A controller
  callback, when one is called, is recorded in the trace.\<close>

record MouseEvent =
  target :: nat
  ctrlKey :: bool
  detail :: nat

record GestureEvent =
  initialTarget :: nat

record Platform =
  isNative :: bool
  isMacintosh :: bool
  isIE :: bool

record ViewCell =
  cellElement :: nat

text \<open>\<^verbatim>\<open>getCellAround(element)\<close>: the body is \<^verbatim>\<open>return undefined\<close>.\<close>

definition TableView_getCellAround :: "TableView \<Rightarrow> nat \<Rightarrow> ViewCell option" where
  "TableView_getCellAround s el = None"

definition TableView_onMouseDown :: "Platform \<Rightarrow> MouseEvent \<Rightarrow> TableView \<Rightarrow> TableView" where
  "TableView_onMouseDown pf e s =
     (let s1 = s\<lparr>didJustPressContextMenuKey := False\<rparr>
      in if \<not> controllerOnMouseDown s1 then s1
         else if truthy (lastPointerType s1) \<and> lastPointerType s1 \<noteq> Some ''mouse'' then s1
         else if ctrlKey e \<and> isNative pf \<and> isMacintosh pf then s1
         else (case TableView_getCellAround s1 (target e) of
                 None \<Rightarrow> s1
               | Some item \<Rightarrow> s1\<lparr>trace := trace s1 @ [ControllerMouseDown (cellElement item)]\<rparr>))"

definition TableView_onMouseUp :: "Platform \<Rightarrow> MouseEvent \<Rightarrow> TableView \<Rightarrow> TableView" where
  "TableView_onMouseUp pf e s =
     (if \<not> controllerOnMouseUp s then s
      else if truthy (lastPointerType s) \<and> lastPointerType s \<noteq> Some ''mouse'' then s
      else if ctrlKey e \<and> isNative pf \<and> isMacintosh pf then s
      else (case TableView_getCellAround s (target e) of
              None \<Rightarrow> s
            | Some item \<Rightarrow> s\<lparr>trace := trace s @ [ControllerMouseUp (cellElement item)]\<rparr>))"

text \<open>\<open>now\<close> is what \<^verbatim>\<open>Date.now()\<close> returns.\<close>

definition TableView_onClick :: "Platform \<Rightarrow> int \<Rightarrow> MouseEvent \<Rightarrow> TableView \<Rightarrow> TableView" where
  "TableView_onClick pf now e s =
     (if truthy (lastPointerType s) \<and> lastPointerType s \<noteq> Some ''mouse'' then s
      else (case TableView_getCellAround s (target e) of
              None \<Rightarrow> s
            | Some item \<Rightarrow>
                s\<lparr>lastClickTimeStamp := now,
                  trace := trace s @
                    [ControllerClick (cellElement item)
                       (if isIE pf \<and> now - lastClickTimeStamp s < 300 then 2 else detail e)]\<rparr>))"

definition TableView_onTap :: "GestureEvent \<Rightarrow> TableView \<Rightarrow> TableView" where
  "TableView_onTap e s =
     (case TableView_getCellAround s (initialTarget e) of
        None \<Rightarrow> s
      | Some item \<Rightarrow> s\<lparr>trace := trace s @ [ControllerTap (cellElement item)]\<rparr>)"

section \<open>A table of rows of 20 pixels\<close>

text \<open>The rows of the scenario: each 20 pixels tall, put into the height index one after
  the other. \<open>next_row\<close> is an \<^verbatim>\<open>itemAfter\<close> that names the following row.
  \<open>demo_view0 n\<close> is a view of \<open>n\<close> such rows with nothing rendered; in
  \<open>demo_view n\<close> the rows 0 to 9 have been inserted and the last render window is
  the one of the scenario, top 0 and height 200.\<close>

definition demo_row :: "nat \<Rightarrow> ViewRow" where
  "demo_row i =
     \<lparr>model = Some \<lparr>rowId = decimal i, getHeight = 20, getAllTraits = [], getElement = i\<rparr>,
      id' = decimal i, row = None, top' = 0, height = 20, styles' = [],
      templateId' = None\<rparr>"

definition demo_table :: "nat \<Rightarrow> ViewRow list" where
  "demo_table n = hm_run (map (\<lambda>i. InsertRow i (demo_row i)) [0..<n])"







text \<open>A height index is in order when every row's \<open>top'\<close> is the sum of the heights of
  the rows before it; \<open>rows_upto\<close> counts the leading rows that start at or before an
  offset.\<close>

definition hm_ok :: "ViewRow list \<Rightarrow> bool" where
  "hm_ok hm = (retop 0 hm = hm)"

definition rows_upto :: "ViewRow list \<Rightarrow> int \<Rightarrow> nat" where
  "rows_upto hm off = length (takeWhile (\<lambda>r. top' r \<le> off) hm)"

section \<open>The calls of one render\<close>

text \<open>The calls \<^verbatim>\<open>render\<close> makes, as a list: \<open>InsertItem i\<close> is
  \<^verbatim>\<open>insertItemInDOM(itemAtIndex(i))\<close> and \<open>RemoveItem i\<close> is
  \<^verbatim>\<open>removeItemFromDOM(itemAtIndex(i))\<close>. A list of calls runs in order and stops at
  the first exception.\<close>

datatype dom_op = InsertItem int | RemoveItem int








definition render_finish :: "int \<Rightarrow> int \<Rightarrow> TableView \<Rightarrow> TableView" where
  "render_finish scrollTop viewHeight s =
     (case itemAtIndex (heightMap s) (indexAt (heightMap s) scrollTop) of
        None \<Rightarrow> s
      | Some topItem \<Rightarrow>
          s\<lparr>rowsContainerTop := Some (number_text (top' topItem - scrollTop) @ ''px'')\<rparr>)
     \<lparr>lastRenderTop := scrollTop, lastRenderHeight := viewHeight\<rparr>"

text \<open>What the passes leave alone: the geometry of the rows, the row container and the
  last render window.\<close>

definition table_part :: "TableView \<Rightarrow> int list \<times> nat list \<times> nat \<times> int \<times> int" where
  "table_part s =
     (map top' (heightMap s), map height (heightMap s), rowsContainer s, lastRenderTop s,
      lastRenderHeight s)"

section \<open>Well-formed views\<close>

text \<open>The wrappers bound to rows (in row order) and the pooled wrappers (in the order of
  the pools), and a wrapper's element.\<close>

definition elem_of :: "'a World_scheme \<Rightarrow> nat \<Rightarrow> nat option" where
  "elem_of s c = element (cells s c)"

definition bound_of :: "ViewRow list \<Rightarrow> nat list" where
  "bound_of hm = concat (map (\<lambda>r. case row r of None \<Rightarrow> [] | Some c \<Rightarrow> [c]) hm)"

definition bound_cells :: "TableView \<Rightarrow> nat list" where
  "bound_cells s = bound_of (heightMap s)"

definition pooled_cells :: "'a World_scheme \<Rightarrow> nat list" where
  "pooled_cells s = (case cache' s of None \<Rightarrow> [] | Some m \<Rightarrow> concat (map snd m))"

text \<open>A view is well formed when: the cache is alive; the height index is in order; no
  wrapper is bound to two rows, pooled twice, or both bound and pooled, and no two
  wrappers share an element (the invariant of the data model); every wrapper and
  element in use was handed out by the store and by the document; the element of a
  pooled wrapper has no parent, and the element of a bound wrapper has no parent or is
  a child of the row container; and the template kind of every row can be found (the
  row has its model, or its kind is cached, or the renderer has no
  \<^verbatim>\<open>getTemplateId\<close>).\<close>

definition tv_ok :: "TableView \<Rightarrow> bool" where
  "tv_ok s =
     (cache' s \<noteq> None \<and> hm_ok (heightMap s) \<and>
      distinct (map (elem_of s) (bound_cells s @ pooled_cells s)) \<and>
      list_all (\<lambda>c. c < nextCell s \<and> (case elem_of s c of None \<Rightarrow> False | Some e \<Rightarrow> e < nextId s))
        (bound_cells s @ pooled_cells s) \<and>
      list_all (\<lambda>c. case elem_of s c of None \<Rightarrow> False | Some e \<Rightarrow> parentElement s e = None)
        (pooled_cells s) \<and>
      list_all (\<lambda>c. case elem_of s c of
                      None \<Rightarrow> False
                    | Some e \<Rightarrow> parentElement s e = None \<or>
                               parentElement s e = Some (rowsContainer s))
        (bound_cells s) \<and>
      list_all (\<lambda>r. model r \<noteq> None \<or> truthy (templateId' r) \<or>
                     getTemplateId (renderer s) = None)
        (heightMap s))"

text \<open>The row indices a list of calls inserts and removes.\<close>

definition inserted :: "dom_op list \<Rightarrow> int set" where
  "inserted ops = {i. InsertItem i \<in> set ops}"

definition removed :: "dom_op list \<Rightarrow> int set" where
  "removed ops = {i. RemoveItem i \<in> set ops}"


section \<open>Properties of the cell cache\<close>


lemma bindE_simps [simp]: "bindE (Inl e) f = Inl e" "bindE (Inr x) f = f x"
  by (simp_all add: bindE_def)




lemma cache'_detach [simp]: "cache' (detach e s) = cache' s"
  by (simp add: detach_def split: option.splits)

lemma cache'_removeFromParent [simp]: "cache' (removeFromParent el s) = cache' s"
  by (simp add: removeFromParent_def removeChild_def split: option.splits)












lemma snd_pool_entries: "map snd (pool_entries m) = concat (map snd m)"
  by (induction m) (simp_all add: pool_entries_def comp_def)









lemma detach_facts:
  "parentElement (detach e s) e = None"
  "parentElement s e = Some p \<Longrightarrow> childNodes (detach e s) p = removeAll e (childNodes s p)"
  "cache' (detach e s) = cache' s"
  by (simp_all add: detach_def split: option.splits)








section \<open>Properties of the view row\<close>

text \<open>C9. For every view context and every model row the constructor of
  \<^verbatim>\<open>ViewRow\<close> reads \<^verbatim>\<open>this.model\<close> while it is still unassigned (the parameter is
  the single name \<^verbatim>\<open>privatemodel\<close>, not a field declaration), so the read of
  \<^verbatim>\<open>this.model.id\<close> is a read of a property of \<^verbatim>\<open>undefined\<close>: the constructor
  throws and no row is built.\<close>

theorem ViewRow_new_reads_unassigned_model:
  "ViewRow_model_at_entry ctx privatemodel = None \<and> ViewRow_new ctx privatemodel = Inl TypeError"
  by (simp add: ViewRow_new_def ViewRow_model_at_entry_def)

text \<open>C10. \<^verbatim>\<open>getCellAround\<close> returns \<^verbatim>\<open>undefined\<close> for every element, and so the
  handlers of mouse-down, mouse-up, click and tap never call the controller: whatever
  the event, the platform and the state, the trace of calls is as it was.\<close>

theorem handlers_never_call_controller:
  "TableView_getCellAround s el = None \<and>
   trace (TableView_onMouseDown pf e s) = trace s \<and>
   trace (TableView_onMouseUp pf e s) = trace s \<and>
   trace (TableView_onClick pf now e s) = trace s \<and>
   trace (TableView_onTap g s) = trace s"
  by (simp add: TableView_getCellAround_def TableView_onMouseDown_def TableView_onMouseUp_def
        TableView_onClick_def TableView_onTap_def Let_def)














section \<open>Properties of the height index\<close>


lemma retop_length [simp]: "length (retop t rs) = length rs"
  by (induction rs arbitrary: t) simp_all

lemma retop_idem: "retop t (retop u rs) = retop t rs"
  by (induction rs arbitrary: t u) simp_all

lemma retop_sorted: "sorted (map top' (retop t rs)) \<and> (\<forall>r \<in> set (retop t rs). t \<le> top' r)"
proof (induction rs arbitrary: t)
  case Nil
  then show ?case by simp
next
  case (Cons r rs)
  have "\<forall>x \<in> set (retop (t + int (height r)) rs). t \<le> top' x"
    using Cons.IH[of "t + int (height r)"] by fastforce
  then show ?case using Cons.IH[of "t + int (height r)"] by simp
qed

lemma hm_ok_sorted: "hm_ok hm \<Longrightarrow> sorted (map top' hm)"
  using retop_sorted[of 0 hm] by (simp add: hm_ok_def)

lemma hm_ok_step: "hm_ok (hm_step hm x)"
  by (cases x) (simp_all add: hm_ok_def hm_insert_def hm_remove_def retop_idem)

lemma hm_ok_run: "hm_ok (hm_run ops)"
proof (cases ops rule: rev_cases)
  case Nil
  then show ?thesis by (simp add: hm_run_def hm_ok_def)
next
  case (snoc ys y)
  then show ?thesis by (simp add: hm_run_def hm_ok_step)
qed

lemma rows_upto_le: "rows_upto hm off \<le> length hm"
  by (simp add: rows_upto_def length_takeWhile_le)


lemma sorted_start_iff:
  assumes "sorted (map top' hm)" and "i < length hm"
  shows "top' (hm ! i) \<le> off \<longleftrightarrow> i < rows_upto hm off"
proof
  assume "i < rows_upto hm off"
  then have "hm ! i \<in> set (takeWhile (\<lambda>r. top' r \<le> off) hm)"
    unfolding rows_upto_def by (metis nth_mem takeWhile_nth)
  then show "top' (hm ! i) \<le> off" by (auto dest: set_takeWhileD)
next
  assume le: "top' (hm ! i) \<le> off"
  show "i < rows_upto hm off"
  proof (rule ccontr)
    assume "\<not> i < rows_upto hm off"
    then have k: "rows_upto hm off \<le> i" by simp
    with assms(2) have "rows_upto hm off < length hm" by simp
    then have "\<not> top' (hm ! rows_upto hm off) \<le> off"
      unfolding rows_upto_def by (rule nth_length_takeWhile)
    moreover have "top' (hm ! rows_upto hm off) \<le> top' (hm ! i)"
      using assms k sorted_nth_mono[of "map top' hm" "rows_upto hm off" i] by simp
    ultimately show False using le by simp
  qed
qed

lemma filter_less_upt: "k \<le> n \<Longrightarrow> filter (\<lambda>i. i < k) [0..<n] = [0..<k]"
proof (induction n)
  case 0
  then show ?case by simp
next
  case (Suc n)
  then show ?case by (cases "k = Suc n") auto
qed

lemma filter_ge_upt: "k \<le> n \<Longrightarrow> filter (\<lambda>i. \<not> i < k) [0..<n] = [k..<n]"
proof (induction n)
  case 0
  then show ?case by simp
next
  case (Suc n)
  then show ?case by (cases "k = Suc n") auto
qed

lemma case_last:
  "(case xs of [] \<Rightarrow> a | i # js \<Rightarrow> f (last (i # js))) = (if xs = [] then a else f (last xs))"
  by (cases xs) simp_all

lemma indexAt_count:
  assumes "hm_ok hm"
  shows "indexAt hm off = int (rows_upto hm off) - 1"
proof -
  have "filter (\<lambda>i. top' (hm ! i) \<le> off) [0..<length hm] =
        filter (\<lambda>i. i < rows_upto hm off) [0..<length hm]"
    using sorted_start_iff[OF hm_ok_sorted[OF assms]] by (intro filter_cong) auto
  then have f: "filter (\<lambda>i. top' (hm ! i) \<le> off) [0..<length hm] = [0..<rows_upto hm off]"
    by (simp add: filter_less_upt rows_upto_le)
  show ?thesis
  proof (cases "rows_upto hm off")
    case 0
    then show ?thesis using f by (simp add: indexAt_def)
  next
    case (Suc k)
    then show ?thesis using f by (simp add: indexAt_def case_last)
  qed
qed

lemma indexAfter_count:
  assumes "hm_ok hm"
  shows "indexAfter hm off = int (rows_upto hm off)"
proof -
  have "filter (\<lambda>i. off < top' (hm ! i)) [0..<length hm] =
        filter (\<lambda>i. \<not> i < rows_upto hm off) [0..<length hm]"
  proof (intro filter_cong refl)
    fix i assume "i \<in> set [0..<length hm]"
    then have "i < length hm" by simp
    from sorted_start_iff[OF hm_ok_sorted[OF assms] this, of off]
    show "(off < top' (hm ! i)) = (\<not> i < rows_upto hm off)" by auto
  qed
  then have f: "filter (\<lambda>i. off < top' (hm ! i)) [0..<length hm] = [rows_upto hm off..<length hm]"
    by (simp add: filter_ge_upt rows_upto_le)
  show ?thesis
  proof (cases "rows_upto hm off < length hm")
    case True
    then show ?thesis using f by (simp add: indexAfter_def upt_conv_Cons)
  next
    case False
    then show ?thesis using f rows_upto_le[of hm off] by (simp add: indexAfter_def)
  qed
qed

text \<open>C3, as amended. In every state of the height index that inserts and removes can
  reach, and for every offset, \<open>indexAfter\<close> is \<open>indexAt\<close> plus one. So
  \<open>indexAfter\<close> is never below \<open>indexAt\<close>, and the two are never equal, also when
  the offset is strictly inside the span of a row.\<close>

theorem indexAfter_is_indexAt_plus_one:
  "indexAt (hm_run ops) off \<le> indexAfter (hm_run ops) off \<and>
   indexAfter (hm_run ops) off = indexAt (hm_run ops) off + 1"
  by (simp add: indexAt_count indexAfter_count hm_ok_run)

text \<open>The claim as written fails on a table of one row of 20 pixels: the offset 10 is
  strictly inside the span of row 0, \<open>indexAt\<close> is 0 and \<open>indexAfter\<close> is 1.\<close>

theorem indexAfter_differs_inside_span:
  "inside_span (hm_run [InsertRow 0 (demo_row 0)]) 10 \<and>
   indexAt (hm_run [InsertRow 0 (demo_row 0)]) 10 = 0 \<and>
   indexAfter (hm_run [InsertRow 0 (demo_row 0)]) 10 = 1 \<and>
   indexAfter (hm_run [InsertRow 0 (demo_row 0)]) 10 \<noteq> indexAt (hm_run [InsertRow 0 (demo_row 0)]) 10"
  by (simp add: inside_span_def indexAt_def indexAfter_def hm_run_def hm_insert_def demo_row_def)

section \<open>The passes of render\<close>





lemma table_part_world [simp]:
  "table_part (detach e s) = table_part s"
  "table_part (appendChild c e s) = table_part s"
  "table_part (removeFromParent el s) = table_part s"
  "table_part (set_pool k p s) = table_part s"
  "table_part (s\<lparr>trace := tr\<rparr>) = table_part s"
  "table_part (s\<lparr>binding := b\<rparr>) = table_part s"
  by (simp_all add: table_part_def detach_def appendChild_def removeFromParent_def
        removeChild_def set_pool_def Let_def split: option.splits)















section \<open>One render touches no row twice\<close>







section \<open>Wrappers of rows and of pools\<close>

lemma bound_of_split:
  "i < length hm \<Longrightarrow>
   bound_of hm = bound_of (take i hm) @ (case row (hm ! i) of None \<Rightarrow> [] | Some c \<Rightarrow> [c]) @
                 bound_of (drop (Suc i) hm)"
proof -
  assume "i < length hm"
  then have "hm = take i hm @ hm ! i # drop (Suc i) hm" by (simp add: id_take_nth_drop)
  then have "bound_of hm = bound_of (take i hm @ hm ! i # drop (Suc i) hm)" by simp
  then show ?thesis by (simp add: bound_of_def)
qed

lemma bound_of_update:
  "i < length hm \<Longrightarrow>
   bound_of (hm[i := r]) = bound_of (take i hm) @ (case row r of None \<Rightarrow> [] | Some c \<Rightarrow> [c]) @
                 bound_of (drop (Suc i) hm)"
  by (simp add: upd_conv_take_nth_drop bound_of_def)

lemma bound_of_update_same:
  "i < length hm \<Longrightarrow> row r = row (hm ! i) \<Longrightarrow> bound_of (hm[i := r]) = bound_of hm"
  by (simp add: bound_of_update bound_of_split[of i hm])



















section \<open>Well-formed views stay well formed\<close>

lemma retop_fixed: "retop t xs = xs \<longleftrightarrow> map top' (retop t xs) = map top' xs"
proof (induction xs arbitrary: t)
  case Nil
  then show ?case by simp
next
  case (Cons r rs)
  have "r\<lparr>top' := t\<rparr> = r \<longleftrightarrow> t = top' r"
  proof
    assume "r\<lparr>top' := t\<rparr> = r"
    then have "top' (r\<lparr>top' := t\<rparr>) = top' r" by simp
    then show "t = top' r" by simp
  qed simp
  then show ?case using Cons.IH[of "t + int (height r)"] by simp
qed

lemma retop_tops_cong:
  "length xs = length ys \<Longrightarrow> map height xs = map height ys \<Longrightarrow>
   map top' (retop t xs) = map top' (retop t ys)"
  by (induction xs ys arbitrary: t rule: list_induct2) simp_all

lemma hm_ok_cong:
  assumes "map top' hm' = map top' hm" and "map height hm' = map height hm"
  shows "hm_ok hm' = hm_ok hm"
proof -
  have "length hm' = length hm" using assms(1) by (rule map_eq_imp_length_eq)
  then have "map top' (retop 0 hm') = map top' (retop 0 hm)"
    using assms(2) by (rule retop_tops_cong)
  then show ?thesis using assms(1) by (simp add: hm_ok_def retop_fixed)
qed

lemma hm_ok_table_part: "table_part s' = table_part s \<Longrightarrow> hm_ok (heightMap s') = hm_ok (heightMap s)"
  using hm_ok_cong[of "heightMap s'" "heightMap s"] by (simp add: table_part_def)





























section \<open>Running the calls of a render in any order\<close>

lemma inserted_simps [simp]:
  "inserted [] = {}"
  "inserted (InsertItem i # xs) = insert i (inserted xs)"
  "inserted (RemoveItem i # xs) = inserted xs"
  by (auto simp: inserted_def)

lemma removed_simps [simp]:
  "removed [] = {}"
  "removed (InsertItem i # xs) = removed xs"
  "removed (RemoveItem i # xs) = insert i (removed xs)"
  by (auto simp: removed_def)


lemma rowsInDOM_cong:
  "length (heightMap a) = length (heightMap b) \<Longrightarrow> (\<And>j. inDOM a j = inDOM b j) \<Longrightarrow>
   rowsInDOM a = rowsInDOM b"
  by (simp add: rowsInDOM_def cong: filter_cong)




section \<open>The end of a render\<close>

lemma window_frame:
  "nextId (s\<lparr>lastRenderTop := a, lastRenderHeight := b\<rparr>) = nextId (s::TableView)"
  "parentElement (s\<lparr>lastRenderTop := a, lastRenderHeight := b\<rparr>) = parentElement s"
  "rowsContainer (s\<lparr>lastRenderTop := a, lastRenderHeight := b\<rparr>) = rowsContainer s"
  "elem_of (s\<lparr>lastRenderTop := a, lastRenderHeight := b\<rparr>) = elem_of s"
  "pooled_cells (s\<lparr>lastRenderTop := a, lastRenderHeight := b\<rparr>) = pooled_cells s"
  "bound_cells (s\<lparr>lastRenderTop := a, lastRenderHeight := b\<rparr>) = bound_cells s"
  "ViewRow_element r (s\<lparr>lastRenderTop := a, lastRenderHeight := b\<rparr>) = ViewRow_element r s"
  by (simp_all add: elem_of_def fun_eq_iff pooled_cells_def bound_cells_def ViewRow_element_def
        split: option.splits)

lemma tv_ok_window [simp]:
  "tv_ok (s\<lparr>lastRenderTop := a, lastRenderHeight := b\<rparr>) = tv_ok s"
  unfolding tv_ok_def window_frame by simp

lemma inDOM_window [simp]:
  "inDOM (s\<lparr>lastRenderTop := a, lastRenderHeight := b\<rparr>) j = inDOM s j"
  unfolding inDOM_def window_frame by simp

lemma top_frame:
  "parentElement (s\<lparr>rowsContainerTop := a\<rparr>) = parentElement (s::TableView)"
  "rowsContainer (s\<lparr>rowsContainerTop := a\<rparr>) = rowsContainer s"
  "heightMap (s\<lparr>rowsContainerTop := a\<rparr>) = heightMap s"
  "ViewRow_element r (s\<lparr>rowsContainerTop := a\<rparr>) = ViewRow_element r s"
  by (simp_all add: ViewRow_element_def split: option.splits)

lemma inDOM_top [simp]: "inDOM (s\<lparr>rowsContainerTop := a\<rparr>) j = inDOM s j"
  unfolding inDOM_def top_frame by simp

lemma inDOM_finish [simp]: "inDOM (render_finish st vh s) j = inDOM s j"
  by (simp add: render_finish_def split: option.splits)

lemma heightMap_finish [simp]: "heightMap (render_finish st vh s) = heightMap s"
  by (simp add: render_finish_def split: option.splits)

lemma rowsInDOM_finish [simp]: "rowsInDOM (render_finish st vh s) = rowsInDOM s"
  by (rule rowsInDOM_cong) simp_all


section \<open>A render that throws\<close>




section \<open>The scenario: a table of rows of 20 pixels\<close>


lemma table_step: "demo_table (Suc n) = hm_insert n (demo_row n) (demo_table n)"
  by (simp add: demo_table_def hm_run_def)

lemma table_length [simp]: "length (demo_table n) = n"
  by (induction n) (simp_all add: table_step hm_insert_def demo_table_def hm_run_def)


















section \<open>The claims about render\<close>







end
